theory Spec2Isabelle
  imports Main
begin

section \<open>The document store of server.js\<close>

text \<open>
  The server keeps three Mongoose collections that the comment, reply and like handlers
  touch: \<open>Blog\<close>, \<open>Comment\<close> and \<open>Notification\<close>. A collection is modelled as the
  list of its documents in natural (insertion) order, and the database as a record of the
  three lists. Every handler is a function from the database to a response and the new
  database. The store calls of one request are taken in program order, requests are
  taken one at a time, and a store call itself does not fail.

  An \<open>ObjectId\<close> is an opaque value that is only ever compared for equality, so it is a
  natural number here. A field that may be absent from a document is an \<open>option\<close>; an
  absent or \<open>null\<close> value is falsy in the source's tests (\<open>if(comment.parent)\<close>,
  \<open>replying_to ? 0 : 1\<close>) and a present ObjectId is truthy.

  The schema files are not part of server.js: each record holds the fields that the
  handlers read or write. A document's \<open>_id\<close> is \<open>blog__id\<close> or \<open>comment__id\<close>; of a
  notification, \<open>ntype\<close> is the field \<open>type\<close>, \<open>ncomment\<close> the field \<open>comment\<close>,
  \<open>replied_on_comment\<close> the field that /add-comment writes for a reply, and \<open>reply\<close> the
  field that \<open>deleteComments\<close> filters on and unsets.
\<close>

type_synonym oid = nat

record activity =
  total_likes :: int
  total_comments :: int
  total_reads :: int
  total_parent_comments :: int

record blog_doc =
  blog__id :: oid
  author :: oid
  comments :: "oid list"
  activity :: activity

record comment_doc =
  comment__id :: oid
  blog_id :: oid
  blog_author :: oid
  comment :: string
  commented_by :: oid
  parent :: "oid option"
  isReply :: bool
  children :: "oid list"
  commentedAt :: nat

datatype notification_type = Like | CommentN | Reply

record notification_doc =
  ntype :: notification_type
  blog :: oid
  notification_for :: oid
  user :: oid
  ncomment :: "oid option"
  replied_on_comment :: "oid option"
  reply :: "oid option"

record db =
  Blog :: "blog_doc list"
  Comment :: "comment_doc list"
  Notification :: "notification_doc list"

subsection \<open>Collection operations\<close>

text \<open>
  \<open>Model.findOne(filter)\<close> yields the first document matching the filter, or \<open>null\<close>.
  \<open>findOneAndDelete\<close> removes that first document and \<open>findOneAndUpdate\<close> rewrites it;
  both leave every other document alone and do nothing when no document matches.
\<close>

definition findOne :: "('a \<Rightarrow> bool) \<Rightarrow> 'a list \<Rightarrow> 'a option" where
  "findOne P xs = find P xs"

fun deleteFirst :: "('a \<Rightarrow> bool) \<Rightarrow> 'a list \<Rightarrow> 'a list" where
  "deleteFirst P [] = []"
| "deleteFirst P (x # xs) = (if P x then xs else x # deleteFirst P xs)"

fun updateFirst :: "('a \<Rightarrow> bool) \<Rightarrow> ('a \<Rightarrow> 'a) \<Rightarrow> 'a list \<Rightarrow> 'a list" where
  "updateFirst P f [] = []"
| "updateFirst P f (x # xs) = (if P x then f x # xs else x # updateFirst P f xs)"

text \<open>The update operators: \<open>$push\<close> appends, \<open>$pull\<close> removes every equal element.\<close>

definition push :: "'a \<Rightarrow> 'a list \<Rightarrow> 'a list" where
  "push x xs = xs @ [x]"

definition pull :: "'a \<Rightarrow> 'a list \<Rightarrow> 'a list" where
  "pull x xs = removeAll x xs"

subsection \<open>Responses\<close>

text \<open>
  A handler answers with a status code and a JSON body. \<open>Unhandled\<close> is the case where a
  callback dereferences \<open>null\<close>: the promise rejects with a TypeError, no \<open>catch\<close> is
  attached, and no response is sent.
\<close>

datatype body =
    Error string
  | Status string
  | Liked_by_user bool
  | NewComment string nat oid oid "oid list"

datatype response = Json nat body | Unhandled

section \<open>/like-blog\<close>

definition like_blog :: "db \<Rightarrow> oid \<Rightarrow> oid \<Rightarrow> bool \<Rightarrow> response \<times> db" where
  "like_blog s user_id b_id isLikedByUser =
    (let incrementVal = (if \<not> isLikedByUser then 1 else - 1);
         found = findOne (\<lambda>b. blog__id b = b_id) (Blog s);
         s1 = s\<lparr>Blog := updateFirst (\<lambda>b. blog__id b = b_id)
                 (\<lambda>b. b\<lparr>activity := (activity b)\<lparr>total_likes :=
                      total_likes (activity b) + incrementVal\<rparr>\<rparr>) (Blog s)\<rparr>
     in if isLikedByUser then
          (case found of
             None \<Rightarrow> (Unhandled, s1)
           | Some blg \<Rightarrow>
               (Json 200 (Liked_by_user True),
                s1\<lparr>Notification := Notification s1 @
                   [\<lparr>ntype = Like, blog = b_id, notification_for = author blg,
                     user = user_id, ncomment = None, replied_on_comment = None,
                     reply = None\<rparr>]\<rparr>))
        else
          (Json 200 (Liked_by_user False),
           s1\<lparr>Notification := deleteFirst
              (\<lambda>n. user n = user_id \<and> blog n = b_id \<and> ntype n = Like) (Notification s1)\<rparr>))"

section \<open>/add-comment\<close>

text \<open>
  \<open>new_id\<close> and \<open>now\<close> are the \<open>_id\<close> and the \<open>commentedAt\<close> timestamp that the store
  assigns when the comment document is saved. \<open>isReply\<close> and \<open>children\<close> are not set by
  the handler when there is no parent and take the schema's defaults, \<open>false\<close> and the
  empty array (the listing query \<open>Comment.find({ blog_id, isReply: false })\<close> relies on the
  former).
\<close>

definition add_comment ::
  "oid \<Rightarrow> nat \<Rightarrow> db \<Rightarrow> oid \<Rightarrow> oid \<Rightarrow> string \<Rightarrow> oid \<Rightarrow> oid option \<Rightarrow> response \<times> db" where
  "add_comment new_id now s user_id b_id comment_text blog_author_id replying_to =
    (if length comment_text = 0 then
       (Json 403 (Error ''Write something to leave a comment...''), s)
     else
       let commentFile = \<lparr>comment__id = new_id, blog_id = b_id, blog_author = blog_author_id,
               comment = comment_text, commented_by = user_id, parent = replying_to,
               isReply = (replying_to \<noteq> None), children = [], commentedAt = now\<rparr>;
           s1 = s\<lparr>Comment := Comment s @ [commentFile]\<rparr>;
           s2 = s1\<lparr>Blog := updateFirst (\<lambda>b. blog__id b = b_id)
                  (\<lambda>b. b\<lparr>comments := push new_id (comments b),
                         activity := (activity b)\<lparr>
                           total_comments := total_comments (activity b) + 1,
                           total_parent_comments := total_parent_comments (activity b)
                             + (if replying_to \<noteq> None then 0 else 1)\<rparr>\<rparr>) (Blog s1)\<rparr>;
           notificationObj = \<lparr>ntype = (if replying_to \<noteq> None then Reply else CommentN),
               blog = b_id, notification_for = blog_author_id, user = user_id,
               ncomment = Some new_id, replied_on_comment = None, reply = None\<rparr>;
           res = Json 200 (NewComment (comment commentFile) (commentedAt commentFile) new_id
                   user_id (children commentFile))
       in case replying_to of
            None \<Rightarrow> (res, s2\<lparr>Notification := Notification s2 @ [notificationObj]\<rparr>)
          | Some p \<Rightarrow>
              (case findOne (\<lambda>c. comment__id c = p) (Comment s2) of
                 None \<Rightarrow> (Unhandled, s2)
               | Some replyingToCommentDoc \<Rightarrow>
                   (res,
                    s2\<lparr>Comment := updateFirst (\<lambda>c. comment__id c = p)
                          (\<lambda>c. c\<lparr>children := push new_id (children c)\<rparr>) (Comment s2),
                       Notification := Notification s2 @
                          [notificationObj\<lparr>replied_on_comment := Some p,
                             notification_for := commented_by replyingToCommentDoc\<rparr>]\<rparr>)))"

section \<open>deleteComments and /delete-comment\<close>

text \<open>
  \<open>removeRefs _id c s\<close> is the body of the \<open>then\<close> callback of \<open>deleteComments\<close> up to
  the Blog update, for the comment document \<open>c\<close> that \<open>findOneAndDelete\<close> returned.

  In the Blog update the key \<open>"activity.total_parent_comments"\<close> stands beside \<open>$pull\<close> and
  \<open>$inc\<close>, not inside \<open>$inc\<close>. Mongoose moves a top-level key that is not an operator into
  \<open>$set\<close>, so the field is assigned the value \<open>comment.parent ? 0 : -1\<close>.
\<close>

definition removeRefs :: "oid \<Rightarrow> comment_doc \<Rightarrow> db \<Rightarrow> db" where
  "removeRefs c_id c s =
    (let s1 = (case parent c of
                 None \<Rightarrow> s
               | Some p \<Rightarrow> s\<lparr>Comment := updateFirst (\<lambda>d. comment__id d = p)
                     (\<lambda>d. d\<lparr>children := pull c_id (children d)\<rparr>) (Comment s)\<rparr>);
         s2 = s1\<lparr>Notification := deleteFirst (\<lambda>n. ncomment n = Some c_id) (Notification s1)\<rparr>;
         s3 = s2\<lparr>Notification := updateFirst (\<lambda>n. reply n = Some c_id)
                  (\<lambda>n. n\<lparr>reply := None\<rparr>) (Notification s2)\<rparr>
     in s3\<lparr>Blog := updateFirst (\<lambda>b. blog__id b = blog_id c)
              (\<lambda>b. b\<lparr>comments := pull c_id (comments b),
                     activity := (activity b)\<lparr>
                       total_comments := total_comments (activity b) + (- 1),
                       total_parent_comments := (if parent c \<noteq> None then 0 else - 1)\<rparr>\<rparr>)
              (Blog s3)\<rparr>)"

text \<open>
  \<open>deleteComments\<close> deletes the comment, or does nothing when there is none (the callback
  then throws on \<open>comment.parent\<close> and the \<open>catch\<close> logs it), and calls itself on every id
  of the deleted document's \<open>children\<close>, in order.
\<close>

function deleteComments :: "db \<Rightarrow> oid \<Rightarrow> db"
  and deleteReplies :: "db \<Rightarrow> oid list \<Rightarrow> db" where
  "deleteComments s c_id =
    (case findOne (\<lambda>d. comment__id d = c_id) (Comment s) of
       None \<Rightarrow> s
     | Some c \<Rightarrow>
         deleteReplies
           (removeRefs c_id c
              (s\<lparr>Comment := deleteFirst (\<lambda>d. comment__id d = c_id) (Comment s)\<rparr>))
           (children c))"
| "deleteReplies s [] = s"
| "deleteReplies s (replies # rest) = deleteReplies (deleteComments s replies) rest"
  by pat_completeness auto

lemma length_deleteFirst_le: "length (deleteFirst P xs) \<le> length xs"
  by (induction xs) auto

lemma length_deleteFirst_find:
  "find P xs = Some x \<Longrightarrow> length (deleteFirst P xs) < length xs"
  by (induction xs) (auto split: if_splits)

lemma length_updateFirst [simp]: "length (updateFirst P f xs) = length xs"
  by (induction xs) auto

lemma length_Comment_removeRefs [simp]:
  "length (Comment (removeRefs c_id c s)) = length (Comment s)"
  by (simp add: removeRefs_def Let_def split: option.splits)

lemma deleteComments_dom_length:
  "deleteComments_deleteReplies_dom (Inl (s, c_id)) \<Longrightarrow>
     length (Comment (deleteComments s c_id)) \<le> length (Comment s)"
  "deleteComments_deleteReplies_dom (Inr (s, ids)) \<Longrightarrow>
     length (Comment (deleteReplies s ids)) \<le> length (Comment s)"
proof (induction s c_id and s ids rule: deleteComments_deleteReplies.pinduct)
  case (1 s c_id)
  show ?case
  proof (cases "findOne (\<lambda>d. comment__id d = c_id) (Comment s)")
    case None
    with 1 show ?thesis by (simp add: deleteComments.psimps)
  next
    case (Some c)
    have "length (Comment (deleteComments s c_id))
        \<le> length (deleteFirst (\<lambda>d. comment__id d = c_id) (Comment s))"
      using 1 Some by (simp add: deleteComments.psimps)
    also have "\<dots> \<le> length (Comment s)" by (rule length_deleteFirst_le)
    finally show ?thesis .
  qed
next
  case (2 s)
  then show ?case by (simp add: deleteReplies.psimps)
next
  case (3 s replies rest)
  then show ?case by (simp add: deleteReplies.psimps)
qed

termination deleteComments
proof (relation "measures [\<lambda>x. case x of Inl (s, _) \<Rightarrow> length (Comment s)
                                          | Inr (s, _) \<Rightarrow> length (Comment s),
                           \<lambda>x. case x of Inl _ \<Rightarrow> 0 | Inr (_, ids) \<Rightarrow> Suc (length ids)]",
       goal_cases)
  case 1
  show ?case by simp
next
  case (2 s c_id c)
  then show ?case
    by (simp add: findOne_def length_deleteFirst_find)
next
  case (3 s replies rest)
  show ?case by simp
next
  case (4 s replies rest)
  then show ?case
    using deleteComments_dom_length(1) [of s replies]
    by (auto simp: le_less)
qed

text \<open>
  The handler: the permission test reads \<open>commented_by\<close> and \<open>blog_author\<close> of the stored
  comment; on a missing comment the dereference of \<open>null\<close> is unhandled.
\<close>

definition delete_comment :: "db \<Rightarrow> oid \<Rightarrow> oid \<Rightarrow> response \<times> db" where
  "delete_comment s user_id c_id =
    (case findOne (\<lambda>d. comment__id d = c_id) (Comment s) of
       None \<Rightarrow> (Unhandled, s)
     | Some c \<Rightarrow>
         if user_id = commented_by c \<or> user_id = blog_author c then
           (Json 200 (Status ''done''), deleteComments s c_id)
         else
           (Json 403 (Error ''Cannot delete this comment''), s))"

declare deleteComments.simps [simp del]

section \<open>Store invariants and what a cascade leaves behind\<close>

text \<open>
  MongoDB keeps \<open>_id\<close> unique within a collection; \<open>comment_ids\<close> lists the ids of the
  Comment collection and the theorems that need uniqueness assume it is \<open>distinct\<close>.
\<close>

definition comment_ids :: "db \<Rightarrow> oid list" where
  "comment_ids s = map comment__id (Comment s)"



text \<open>
  \<open>deleted s s' j\<close>: the comment \<open>j\<close> of \<open>s\<close> is gone in \<open>s'\<close>.
  \<open>survivors s s'\<close>: every comment of \<open>s'\<close> is a comment of \<open>s\<close> that kept its id, parent
  and reply flag and lost at most some children.
  \<open>unlinked s s'\<close>: a comment of \<open>s\<close> that is gone in \<open>s'\<close> is no longer among the children
  of its parent, when the parent is still there.
\<close>

definition deleted :: "db \<Rightarrow> db \<Rightarrow> oid \<Rightarrow> bool" where
  "deleted s s' j \<longleftrightarrow> j \<in> set (comment_ids s) \<and> j \<notin> set (comment_ids s')"




text \<open>
  The notifications that point at comment \<open>j\<close>: through \<open>comment\<close> (the notification the
  comment gave rise to) and through \<open>reply\<close>.
\<close>

definition comment_notifications :: "db \<Rightarrow> oid \<Rightarrow> notification_doc list" where
  "comment_notifications s j = filter (\<lambda>n. ncomment n = Some j) (Notification s)"

definition reply_notifications :: "db \<Rightarrow> oid \<Rightarrow> notification_doc list" where
  "reply_notifications s j = filter (\<lambda>n. reply n = Some j) (Notification s)"

text \<open>
  What a cascade from \<open>s\<close> to \<open>s'\<close> is to leave of the notifications:
  \<open>refers_deleted s s' r\<close> says that the reference \<open>r\<close> points at a comment that the
  cascade deleted, and \<open>expected_notifications s s'\<close> are the notifications of \<open>s\<close>
  without those whose \<open>comment\<close> field points at a deleted comment, and with \<open>reply\<close>
  unset in those whose \<open>reply\<close> points at one; every other notification, and every other
  field, is as it was.
\<close>

definition refers_deleted :: "db \<Rightarrow> db \<Rightarrow> oid option \<Rightarrow> bool" where
  "refers_deleted s s' r = (case r of None \<Rightarrow> False | Some j \<Rightarrow> deleted s s' j)"

definition expected_notifications :: "db \<Rightarrow> db \<Rightarrow> notification_doc list" where
  "expected_notifications s s' =
     map (\<lambda>n. if refers_deleted s s' (reply n) then n\<lparr>reply := None\<rparr> else n)
       (filter (\<lambda>n. \<not> refers_deleted s s' (ncomment n)) (Notification s))"

text \<open>
  \<open>unique_refs\<close>: no two notifications have the same comment in their \<open>comment\<close> field,
  and no two the same comment in their \<open>reply\<close> field. /add-comment saves one notification
  for the comment it has just created, and no handler writes \<open>reply\<close>. \<open>single_refs\<close> says
  the same by counting and \<open>exact\<close> is the relation that the induction over a cascade
  carries.
\<close>

definition unique_refs :: "db \<Rightarrow> bool" where
  "unique_refs s \<longleftrightarrow> distinct (List.map_filter ncomment (Notification s))
      \<and> distinct (List.map_filter reply (Notification s))"

definition single_refs :: "db \<Rightarrow> bool" where
  "single_refs s \<longleftrightarrow> (\<forall>j. length (comment_notifications s j) \<le> 1
      \<and> length (reply_notifications s j) \<le> 1)"

definition exact :: "db \<Rightarrow> db \<Rightarrow> bool" where
  "exact s s' \<longleftrightarrow> (distinct (comment_ids s) \<and> single_refs s \<longrightarrow>
      distinct (comment_ids s') \<and> set (comment_ids s') \<subseteq> set (comment_ids s)
      \<and> Notification s' = expected_notifications s s')"

subsection \<open>Example databases\<close>

text \<open>
  \<open>thread_db\<close>: blog 1 of author 100 with two top-level comments, 10 (by 200) and 12 (by
  202), and one reply 11 (by 201) to comment 10; each comment has its notification, and the
  one of comment 10 carries a \<open>reply\<close> reference to 11.
\<close>

definition thread_db :: db where
  "thread_db =
    \<lparr>Blog = [\<lparr>blog__id = 1, author = 100, comments = [10, 11, 12],
              activity = \<lparr>total_likes = 0, total_comments = 3, total_reads = 0,
                          total_parent_comments = 2\<rparr>\<rparr>],
     Comment =
       [\<lparr>comment__id = 10, blog_id = 1, blog_author = 100, comment = ''first'',
          commented_by = 200, parent = None, isReply = False, children = [11],
          commentedAt = 1\<rparr>,
        \<lparr>comment__id = 11, blog_id = 1, blog_author = 100, comment = ''answer'',
          commented_by = 201, parent = Some 10, isReply = True, children = [],
          commentedAt = 2\<rparr>,
        \<lparr>comment__id = 12, blog_id = 1, blog_author = 100, comment = ''second'',
          commented_by = 202, parent = None, isReply = False, children = [],
          commentedAt = 3\<rparr>],
     Notification =
       [\<lparr>ntype = CommentN, blog = 1, notification_for = 100, user = 200,
          ncomment = Some 10, replied_on_comment = None, reply = Some 11\<rparr>,
        \<lparr>ntype = Reply, blog = 1, notification_for = 200, user = 201,
          ncomment = Some 11, replied_on_comment = Some 10, reply = None\<rparr>,
        \<lparr>ntype = CommentN, blog = 1, notification_for = 100, user = 202,
          ncomment = Some 12, replied_on_comment = None, reply = None\<rparr>]\<rparr>"

text \<open>
  \<open>reply_db\<close>: one comment, 10, and two notifications (of comments 20 and 21, not in the
  collection) that both refer to it through \<open>reply\<close>. It does not satisfy \<open>unique_refs\<close>.
\<close>

definition reply_db :: db where
  "reply_db =
    \<lparr>Blog = [\<lparr>blog__id = 1, author = 100, comments = [10],
              activity = \<lparr>total_likes = 0, total_comments = 1, total_reads = 0,
                          total_parent_comments = 1\<rparr>\<rparr>],
     Comment =
       [\<lparr>comment__id = 10, blog_id = 1, blog_author = 100, comment = ''thanks'',
          commented_by = 100, parent = None, isReply = False, children = [],
          commentedAt = 5\<rparr>],
     Notification =
       [\<lparr>ntype = CommentN, blog = 1, notification_for = 100, user = 200,
          ncomment = Some 20, replied_on_comment = None, reply = Some 10\<rparr>,
        \<lparr>ntype = CommentN, blog = 1, notification_for = 100, user = 201,
          ncomment = Some 21, replied_on_comment = None, reply = Some 10\<rparr>]\<rparr>"

text \<open>
  \<open>built_db\<close>: what three /add-comment requests make of \<open>blank_db\<close>, a blog without
  comments: comment 10 by user 200, the reply 11 to it by user 201, and comment 12 by
  user 202.
\<close>

definition blank_db :: db where
  "blank_db =
    \<lparr>Blog = [\<lparr>blog__id = 1, author = 100, comments = [],
              activity = \<lparr>total_likes = 0, total_comments = 0, total_reads = 0,
                          total_parent_comments = 0\<rparr>\<rparr>],
     Comment = [], Notification = []\<rparr>"

definition built_db :: db where
  "built_db =
     snd (add_comment 12 3
       (snd (add_comment 11 2
          (snd (add_comment 10 1 blank_db 200 1 ''first'' 100 None))
          201 1 ''answer'' 100 (Some 10)))
       202 1 ''second'' 100 None)"

section \<open>Lemmas on the collection operations\<close>

lemma find_Some_set: "find P xs = Some x \<Longrightarrow> x \<in> set xs \<and> P x"
  by (induction xs) (auto split: if_splits)

lemma find_None_ids: "find (\<lambda>d. g d = k) xs = None \<longleftrightarrow> k \<notin> set (map g xs)"
  by (induction xs) auto

lemma find_append_Some: "find P xs = Some x \<Longrightarrow> find P (xs @ ys) = Some x"
  by (induction xs) auto

lemma find_updateFirst_same:
  "(\<And>x. P x \<Longrightarrow> P (f x)) \<Longrightarrow> find P (updateFirst P f xs) = map_option f (find P xs)"
  by (induction xs) auto

lemma map_updateFirst_inv:
  "(\<And>x. g (f x) = g x) \<Longrightarrow> map g (updateFirst P f xs) = map g xs"
  by (induction xs) auto

lemma map_deleteFirst_key:
  "map g (deleteFirst (\<lambda>d. g d = k) xs) = remove1 k (map g xs)"
  by (induction xs) auto

lemma set_deleteFirst_subset: "set (deleteFirst P xs) \<subseteq> set xs"
  by (induction xs) auto

lemma set_updateFirst_subset: "set (updateFirst P f xs) \<subseteq> set xs \<union> f ` set xs"
  by (induction xs) auto




lemma map_filter_Cons:
  "List.map_filter f (x # xs) = (case f x of None \<Rightarrow> List.map_filter f xs | Some y \<Rightarrow> y # List.map_filter f xs)"
  by (simp add: List.map_filter_def split: option.splits)

lemma in_map_filter: "f x = Some y \<Longrightarrow> x \<in> set xs \<Longrightarrow> y \<in> set (List.map_filter f xs)"
  by (force simp: List.map_filter_def)

lemma distinct_map_filter_count:
  "distinct (List.map_filter f xs) \<Longrightarrow> length (filter (\<lambda>x. f x = Some j) xs) \<le> 1"
proof (induction xs)
  case Nil
  then show ?case by simp
next
  case (Cons a xs)
  show ?case
  proof (cases "f a = Some j")
    case True
    with Cons.prems have "j \<notin> set (List.map_filter f xs)"
      by (simp add: map_filter_Cons)
    then have "filter (\<lambda>x. f x = Some j) xs = []"
      by (auto simp: filter_empty_conv dest: in_map_filter)
    with True show ?thesis by simp
  next
    case False
    with Cons show ?thesis by (auto simp: map_filter_Cons split: option.splits)
  qed
qed

lemma deleteFirst_single:
  "length (filter P xs) \<le> 1 \<Longrightarrow> deleteFirst P xs = filter (\<lambda>x. \<not> P x) xs"
  by (induction xs) (auto simp: filter_empty_conv filter_id_conv)

lemma updateFirst_single:
  "length (filter P xs) \<le> 1 \<Longrightarrow> updateFirst P f xs = map (\<lambda>x. if P x then f x else x) xs"
proof (induction xs)
  case Nil
  then show ?case by simp
next
  case (Cons a xs)
  show ?case
  proof (cases "P a")
    case True
    with Cons.prems have "filter P xs = []" by simp
    then have "map (\<lambda>x. if P x then f x else x) xs = xs"
      by (auto simp: filter_empty_conv intro: map_idI)
    with True show ?thesis by simp
  next
    case False
    with Cons show ?thesis by simp
  qed
qed

lemma count_expected_le:
  assumes "\<And>n. Q (g n) \<Longrightarrow> Q n"
  shows "length (filter Q (map g (filter K xs))) \<le> length (filter Q xs)"
proof (induction xs)
  case Nil
  show ?case by simp
next
  case (Cons a xs)
  then show ?case using assms [of a] by auto
qed

lemma compose_expected:
  assumes "\<And>x. K2 (f x) = K2 x"
  shows "map g (filter K2 (map f (filter K1 xs)))
       = map (\<lambda>x. g (f x)) (filter (\<lambda>x. K1 x \<and> K2 x) xs)"
  by (induction xs) (auto simp: assms)

section \<open>Induction over a cascade\<close>

text \<open>
  A relation between databases that is reflexive, transitive and holds across the
  deletion of one comment holds across \<open>deleteComments\<close> and \<open>deleteReplies\<close>.
\<close>

lemma cascade_rel:
  assumes rfl: "\<And>s. R s s"
    and trn: "\<And>s s' s''. R s s' \<Longrightarrow> R s' s'' \<Longrightarrow> R s s''"
    and stp: "\<And>s c_id c. findOne (\<lambda>d. comment__id d = c_id) (Comment s) = Some c \<Longrightarrow>
               R s (removeRefs c_id c
                     (s\<lparr>Comment := deleteFirst (\<lambda>d. comment__id d = c_id) (Comment s)\<rparr>))"
  shows "R s (deleteComments s c_id)" and "R s (deleteReplies s ids)"
proof (induction s c_id and s ids rule: deleteComments_deleteReplies.induct)
  case (1 s c_id)
  show ?case
  proof (cases "findOne (\<lambda>d. comment__id d = c_id) (Comment s)")
    case None
    then show ?thesis by (simp add: rfl deleteComments.simps)
  next
    case (Some c)
    from stp [OF Some] "1.IH" [OF Some]
    have "R s (deleteReplies (removeRefs c_id c
            (s\<lparr>Comment := deleteFirst (\<lambda>d. comment__id d = c_id) (Comment s)\<rparr>)) (children c))"
      by (rule trn)
    with Some show ?thesis by (simp add: deleteComments.simps)
  qed
next
  case (2 s)
  show ?case by (simp add: rfl)
next
  case (3 s replies rest)
  from "3.IH" have "R s (deleteReplies (deleteComments s replies) rest)" by (rule trn)
  then show ?case by simp
qed

subsection \<open>The ids of the Comment collection\<close>

lemma comment_ids_removeRefs: "comment_ids (removeRefs c_id c s) = comment_ids s"
  by (simp add: removeRefs_def comment_ids_def Let_def map_updateFirst_inv split: option.splits)

lemma comment_ids_step:
  "comment_ids (removeRefs c_id c
      (s\<lparr>Comment := deleteFirst (\<lambda>d. comment__id d = c_id) (Comment s)\<rparr>))
     = remove1 c_id (comment_ids s)"
  by (simp add: comment_ids_removeRefs) (simp add: comment_ids_def map_deleteFirst_key)

lemma comment_ids_cascade:
  "(distinct (comment_ids s) \<longrightarrow> distinct (comment_ids (deleteComments s c_id)))
      \<and> set (comment_ids (deleteComments s c_id)) \<subseteq> set (comment_ids s)"
  "(distinct (comment_ids s) \<longrightarrow> distinct (comment_ids (deleteReplies s ids)))
      \<and> set (comment_ids (deleteReplies s ids)) \<subseteq> set (comment_ids s)"
proof -
  let ?R = "\<lambda>s s'. (distinct (comment_ids s) \<longrightarrow> distinct (comment_ids s'))
      \<and> set (comment_ids s') \<subseteq> set (comment_ids s)"
  have r: "\<And>s. ?R s s" by simp
  have t: "\<And>s s' s''. ?R s s' \<Longrightarrow> ?R s' s'' \<Longrightarrow> ?R s s''" by blast
  have st: "\<And>s c_id c. findOne (\<lambda>d. comment__id d = c_id) (Comment s) = Some c \<Longrightarrow>
      ?R s (removeRefs c_id c (s\<lparr>Comment := deleteFirst (\<lambda>d. comment__id d = c_id) (Comment s)\<rparr>))"
  proof -
    fix s c_id c
    show "?R s (removeRefs c_id c
        (s\<lparr>Comment := deleteFirst (\<lambda>d. comment__id d = c_id) (Comment s)\<rparr>))"
      unfolding comment_ids_step using set_remove1_subset [of c_id "comment_ids s"] by simp
  qed
  show "?R s (deleteComments s c_id)" by (rule cascade_rel(1) [of ?R, OF r t st])
  show "?R s (deleteReplies s ids)" by (rule cascade_rel(2) [of ?R, OF r t st])
qed

lemma deleted_stays_deleted:
  assumes "distinct (comment_ids s)"
  shows "c_id \<notin> set (comment_ids (deleteComments s c_id))"
proof (cases "findOne (\<lambda>d. comment__id d = c_id) (Comment s)")
  case None
  then have "deleteComments s c_id = s" by (simp add: deleteComments.simps)
  moreover from None have "c_id \<notin> set (comment_ids s)"
    by (simp add: findOne_def find_None_ids comment_ids_def)
  ultimately show ?thesis by simp
next
  case (Some c)
  let ?s1 = "removeRefs c_id c
      (s\<lparr>Comment := deleteFirst (\<lambda>d. comment__id d = c_id) (Comment s)\<rparr>)"
  have "c_id \<notin> set (comment_ids ?s1)"
    unfolding comment_ids_step using assms by simp
  moreover have "set (comment_ids (deleteReplies ?s1 (children c))) \<subseteq> set (comment_ids ?s1)"
    using comment_ids_cascade(2) by blast
  ultimately show ?thesis using Some by (auto simp: deleteComments.simps)
qed

lemma deleted_step:
  assumes "findOne (\<lambda>d. comment__id d = c_id) (Comment s) = Some c"
    and "distinct (comment_ids s)"
  shows "deleted s (removeRefs c_id c
            (s\<lparr>Comment := deleteFirst (\<lambda>d. comment__id d = c_id) (Comment s)\<rparr>)) j
       \<longleftrightarrow> j = c_id"
proof -
  have "c \<in> set (Comment s) \<and> comment__id c = c_id"
    using assms(1) find_Some_set [of "\<lambda>d. comment__id d = c_id" "Comment s" c]
    by (simp add: findOne_def)
  then have "c_id \<in> set (comment_ids s)" by (auto simp: comment_ids_def)
  then show ?thesis
    unfolding deleted_def comment_ids_step using assms(2) by auto
qed

lemma deleted_trans:
  assumes "set (comment_ids s'') \<subseteq> set (comment_ids s')"
    and "set (comment_ids s') \<subseteq> set (comment_ids s)"
  shows "deleted s s'' j \<longleftrightarrow> deleted s s' j \<or> deleted s' s'' j"
    and "\<not> (deleted s s' j \<and> deleted s' s'' j)"
  using assms by (auto simp: deleted_def)

subsection \<open>The comment tree across a cascade\<close>

















subsection \<open>The notifications across a cascade\<close>

lemma Notification_removeRefs:
  "Notification (removeRefs c_id c s) =
     updateFirst (\<lambda>n. reply n = Some c_id) (\<lambda>n. n\<lparr>reply := None\<rparr>)
       (deleteFirst (\<lambda>n. ncomment n = Some c_id) (Notification s))"
  by (simp add: removeRefs_def Let_def split: option.splits)

lemma unique_single: "unique_refs s \<Longrightarrow> single_refs s"
proof -
  assume u: "unique_refs s"
  show "single_refs s"
    unfolding single_refs_def comment_notifications_def reply_notifications_def
  proof (intro allI conjI)
    fix j
    from u show "length (filter (\<lambda>n. ncomment n = Some j) (Notification s)) \<le> 1"
      unfolding unique_refs_def by (intro distinct_map_filter_count) simp
    from u show "length (filter (\<lambda>n. reply n = Some j) (Notification s)) \<le> 1"
      unfolding unique_refs_def by (intro distinct_map_filter_count) simp
  qed
qed

lemma single_refs_expected:
  assumes "single_refs s"
    and "Notification s' = map (\<lambda>n. if C n then n\<lparr>reply := None\<rparr> else n) (filter K (Notification s))"
  shows "single_refs s'"
  unfolding single_refs_def
proof (intro allI conjI)
  fix j
  have "length (comment_notifications s' j) \<le> length (comment_notifications s j)"
    unfolding comment_notifications_def assms(2) by (rule count_expected_le) (simp split: if_splits)
  with assms(1) show "length (comment_notifications s' j) \<le> 1"
    unfolding single_refs_def by (meson le_trans)
  have "length (reply_notifications s' j) \<le> length (reply_notifications s j)"
    unfolding reply_notifications_def assms(2) by (rule count_expected_le) (simp split: if_splits)
  with assms(1) show "length (reply_notifications s' j) \<le> 1"
    unfolding single_refs_def by (meson le_trans)
qed

lemma refers_deleted_None: "\<not> refers_deleted s s' None"
  by (simp add: refers_deleted_def)

lemma refers_deleted_refl: "\<not> refers_deleted s s r"
  by (simp add: refers_deleted_def deleted_def split: option.splits)

lemma exact_refl: "exact s s"
  by (simp add: exact_def expected_notifications_def refers_deleted_refl)

lemma exact_step:
  assumes f: "findOne (\<lambda>d. comment__id d = c_id) (Comment s) = Some c"
  shows "exact s (removeRefs c_id c (s\<lparr>Comment := deleteFirst (\<lambda>d. comment__id d = c_id) (Comment s)\<rparr>))"
  unfolding exact_def
proof
  let ?s1 = "removeRefs c_id c (s\<lparr>Comment := deleteFirst (\<lambda>d. comment__id d = c_id) (Comment s)\<rparr>)"
  let ?ns = "Notification s"
  assume a: "distinct (comment_ids s) \<and> single_refs s"
  then have d: "distinct (comment_ids s)" and sr: "single_refs s" by simp_all
  have rd: "\<And>r. refers_deleted s ?s1 r \<longleftrightarrow> r = Some c_id"
    by (auto simp: refers_deleted_def deleted_step [OF f d] split: option.splits)
  have ids: "distinct (comment_ids ?s1)" "set (comment_ids ?s1) \<subseteq> set (comment_ids s)"
    unfolding comment_ids_step using d set_remove1_subset [of c_id "comment_ids s"] by simp_all
  from sr have c1: "length (filter (\<lambda>n. ncomment n = Some c_id) ?ns) \<le> 1"
    and r1: "length (filter (\<lambda>n. reply n = Some c_id) ?ns) \<le> 1"
    by (simp_all add: single_refs_def comment_notifications_def reply_notifications_def)
  have del: "deleteFirst (\<lambda>n. ncomment n = Some c_id) ?ns = filter (\<lambda>n. ncomment n \<noteq> Some c_id) ?ns"
    using c1 by (rule deleteFirst_single)
  have "length (filter (\<lambda>n. reply n = Some c_id) (filter (\<lambda>n. ncomment n \<noteq> Some c_id) ?ns))
      \<le> length (filter (\<lambda>n. reply n = Some c_id) ?ns)"
    using count_expected_le [of "\<lambda>n. reply n = Some c_id" "\<lambda>n. n" "\<lambda>n. ncomment n \<noteq> Some c_id" ?ns]
    by simp
  with r1 have r2: "length (filter (\<lambda>n. reply n = Some c_id) (filter (\<lambda>n. ncomment n \<noteq> Some c_id) ?ns)) \<le> 1"
    by simp
  have "Notification ?s1 = updateFirst (\<lambda>n. reply n = Some c_id) (\<lambda>n. n\<lparr>reply := None\<rparr>)
      (filter (\<lambda>n. ncomment n \<noteq> Some c_id) ?ns)"
    by (simp add: Notification_removeRefs del)
  also have "\<dots> = map (\<lambda>n. if reply n = Some c_id then n\<lparr>reply := None\<rparr> else n)
      (filter (\<lambda>n. ncomment n \<noteq> Some c_id) ?ns)"
    using r2 by (rule updateFirst_single)
  also have "\<dots> = expected_notifications s ?s1"
    unfolding expected_notifications_def rd ..
  finally show "distinct (comment_ids ?s1) \<and> set (comment_ids ?s1) \<subseteq> set (comment_ids s)
      \<and> Notification ?s1 = expected_notifications s ?s1"
    using ids by simp
qed

lemma refers_deleted_trans:
  assumes "set (comment_ids s'') \<subseteq> set (comment_ids s')"
    and "set (comment_ids s') \<subseteq> set (comment_ids s)"
  shows "refers_deleted s s'' r \<longleftrightarrow> refers_deleted s s' r \<or> refers_deleted s' s'' r"
  using deleted_trans(1) [OF assms] by (simp add: refers_deleted_def split: option.splits)

lemma exact_trans:
  assumes a: "exact s s'" and b: "exact s' s''"
  shows "exact s s''"
  unfolding exact_def
proof
  assume h: "distinct (comment_ids s) \<and> single_refs s"
  with a have a': "distinct (comment_ids s')" "set (comment_ids s') \<subseteq> set (comment_ids s)"
      "Notification s' = expected_notifications s s'"
    by (simp_all add: exact_def)
  from h have "single_refs s" by simp
  then have "single_refs s'"
    using a'(3) unfolding expected_notifications_def by (rule single_refs_expected)
  with a'(1) b have b': "distinct (comment_ids s'')" "set (comment_ids s'') \<subseteq> set (comment_ids s')"
      "Notification s'' = expected_notifications s' s''"
    by (simp_all add: exact_def)
  note rt = refers_deleted_trans [OF b'(2) a'(2)]
  let ?c1 = "\<lambda>n. if refers_deleted s s' (reply n) then n\<lparr>reply := None\<rparr> else n"
  let ?c2 = "\<lambda>n. if refers_deleted s' s'' (reply n) then n\<lparr>reply := None\<rparr> else n"
  let ?k1 = "\<lambda>n. \<not> refers_deleted s s' (ncomment n)"
  let ?k2 = "\<lambda>n. \<not> refers_deleted s' s'' (ncomment n)"
  have p1: "?c2 (?c1 n) = (if refers_deleted s s'' (reply n) then n\<lparr>reply := None\<rparr> else n)"
    for n
  proof (cases "refers_deleted s s' (reply n)")
    case True
    moreover from True have "refers_deleted s s'' (reply n)" unfolding rt ..
    ultimately show ?thesis by (simp add: refers_deleted_None)
  next
    case False
    moreover from False have "refers_deleted s s'' (reply n) = refers_deleted s' s'' (reply n)"
      unfolding rt by simp
    ultimately show ?thesis by simp
  qed
  have p2: "(?k1 n \<and> ?k2 n) = (\<not> refers_deleted s s'' (ncomment n))" for n
    unfolding rt by blast
  have n'': "Notification s'' = map ?c2 (filter ?k2 (Notification s'))"
    using b'(3) unfolding expected_notifications_def .
  have n': "Notification s' = map ?c1 (filter ?k1 (Notification s))"
    using a'(3) unfolding expected_notifications_def .
  have "Notification s'' = map ?c2 (filter ?k2 (map ?c1 (filter ?k1 (Notification s))))"
    unfolding n'' n' ..
  also have "\<dots> = map (\<lambda>n. ?c2 (?c1 n)) (filter (\<lambda>n. ?k1 n \<and> ?k2 n) (Notification s))"
    by (rule compose_expected) simp
  also have "\<dots> = expected_notifications s s''"
    unfolding expected_notifications_def p1 p2 ..
  finally show "distinct (comment_ids s'') \<and> set (comment_ids s'') \<subseteq> set (comment_ids s)
      \<and> Notification s'' = expected_notifications s s''"
    using a'(2) b'(1,2) by (simp add: subset_trans [OF b'(2) a'(2)])
qed

lemma exact_cascade: "exact s (deleteComments s c_id)"
  by (rule cascade_rel(1) [of exact, OF exact_refl exact_trans exact_step])

lemma expected_no_refs:
  assumes "deleted s s' j" and "Notification s' = expected_notifications s s'"
  shows "comment_notifications s' j = [] \<and> reply_notifications s' j = []"
  using assms(1) unfolding comment_notifications_def reply_notifications_def assms(2)
  by (auto simp: expected_notifications_def filter_empty_conv refers_deleted_def)

subsection \<open>The handlers keep the references unique\<close>

text \<open>
  \<open>unique_refs\<close> holds of a database without notifications and is kept by /like-blog
  and /delete-comment, and by /add-comment when the id that the store assigns to the new
  comment is not yet referred to by a notification.
\<close>

lemma set_map_filter: "set (List.map_filter f xs) = {y. \<exists>x\<in>set xs. f x = Some y}"
  by (force simp: List.map_filter_def)

lemma map_filter_append:
  "List.map_filter f (xs @ ys) = List.map_filter f xs @ List.map_filter f ys"
  by (simp add: List.map_filter_def)

lemma distinct_map_filter_deleteFirst:
  "distinct (List.map_filter f xs) \<Longrightarrow> distinct (List.map_filter f (deleteFirst P xs))"
proof (induction xs)
  case Nil
  then show ?case by simp
next
  case (Cons a xs)
  have "set (List.map_filter f (deleteFirst P xs)) \<subseteq> set (List.map_filter f xs)"
    using set_deleteFirst_subset [of P xs] by (auto simp: set_map_filter)
  with Cons show ?case
    by (auto simp: map_filter_Cons split: option.splits)
qed

lemma Notification_add_comment:
  "Notification (snd (add_comment new_id now s user_id b_id comment_text blog_author_id replying_to))
     = Notification s
   \<or> (\<exists>n. ncomment n = Some new_id \<and> reply n = None
          \<and> Notification (snd (add_comment new_id now s user_id b_id comment_text
                blog_author_id replying_to)) = Notification s @ [n])"
  by (auto simp: add_comment_def Let_def split: option.splits)

lemma unique_refs_add_comment:
  assumes "unique_refs s" and "new_id \<notin> set (List.map_filter ncomment (Notification s))"
  shows "unique_refs (snd (add_comment new_id now s user_id b_id comment_text
            blog_author_id replying_to))"
  using assms Notification_add_comment [of new_id now s user_id b_id comment_text blog_author_id replying_to]
  by (auto simp: unique_refs_def map_filter_append List.map_filter_simps)

lemma unique_refs_like_blog:
  assumes "unique_refs s"
  shows "unique_refs (snd (like_blog s user_id b_id isLikedByUser))"
  using assms
  by (auto simp: like_blog_def Let_def unique_refs_def distinct_map_filter_deleteFirst
        map_filter_append List.map_filter_simps split: option.splits)

lemma map_filter_updateFirst_inv:
  "(\<And>x. g (f x) = g x) \<Longrightarrow> List.map_filter g (updateFirst P f xs) = List.map_filter g xs"
  by (induction xs) (auto simp: map_filter_Cons split: option.splits)

lemma distinct_map_filter_unset:
  assumes "\<And>x. g (f x) = None"
  shows "distinct (List.map_filter g xs) \<Longrightarrow> distinct (List.map_filter g (updateFirst P f xs))"
proof (induction xs)
  case Nil
  then show ?case by simp
next
  case (Cons a xs)
  have "set (List.map_filter g (updateFirst P f xs)) \<subseteq> set (List.map_filter g xs)"
    using set_updateFirst_subset [of P f xs] assms by (auto simp: set_map_filter)
  with Cons show ?case
    by (auto simp: map_filter_Cons assms split: option.splits)
qed

lemma unique_refs_step:
  "unique_refs s \<Longrightarrow> unique_refs (removeRefs c_id c
      (s\<lparr>Comment := deleteFirst (\<lambda>d. comment__id d = c_id) (Comment s)\<rparr>))"
  by (simp add: unique_refs_def Notification_removeRefs map_filter_updateFirst_inv
        distinct_map_filter_deleteFirst distinct_map_filter_unset)

lemma unique_refs_delete_comment:
  assumes "unique_refs s"
  shows "unique_refs (snd (delete_comment s user_id c_id))"
proof -
  let ?R = "\<lambda>s s'. unique_refs s \<longrightarrow> unique_refs s'"
  have "?R s (deleteComments s c_id)"
    by (rule cascade_rel(1) [of ?R]) (simp_all add: unique_refs_step)
  with assms show ?thesis
    by (simp add: delete_comment_def split: option.splits)
qed

lemmas db_eval = findOne_def removeRefs_def pull_def push_def deleteComments.simps
  comment_ids_def

section \<open>Adding a comment\<close>

text \<open>
  C7. A request to add a comment whose text is empty is refused (the handler answers 403
  with the message asking for some text) and the database is left exactly as it was: no
  Comment, no Notification, no change to any Blog counter.
\<close>

theorem add_comment_empty_text:
  "add_comment new_id now s user_id b_id [] blog_author_id replying_to
     = (Json 403 (Error ''Write something to leave a comment...''), s)"
  by (simp add: add_comment_def)

text \<open>
  C8. When a comment with some text is added to a blog of the collection, the blog's
  \<open>total_comments\<close> grows by exactly 1; its \<open>total_parent_comments\<close> grows by exactly 1
  when no parent is given and stays as it is when the comment is a reply.
\<close>

theorem add_comment_counters:
  assumes "comment_text \<noteq> []"
    and "findOne (\<lambda>b. blog__id b = b_id) (Blog s) = Some b"
  shows "\<exists>b'. findOne (\<lambda>b. blog__id b = b_id)
            (Blog (snd (add_comment new_id now s user_id b_id comment_text
                          blog_author_id replying_to))) = Some b'
          \<and> total_comments (activity b') = total_comments (activity b) + 1
          \<and> total_parent_comments (activity b')
              = total_parent_comments (activity b) + (if replying_to = None then 1 else 0)"
  using assms
  by (auto simp: add_comment_def Let_def findOne_def find_updateFirst_same split: option.splits)

theorem add_comment_counters_witness:
  "''hello'' \<noteq> [] \<and> findOne (\<lambda>b. blog__id b = 1) (Blog thread_db) = Some (hd (Blog thread_db))
   \<and> total_comments (activity (hd (Blog thread_db))) = 3
   \<and> total_parent_comments (activity (hd (Blog thread_db))) = 2
   \<and> (\<exists>b'. findOne (\<lambda>b. blog__id b = 1)
          (Blog (snd (add_comment 13 4 thread_db 203 1 ''hello'' 100 None))) = Some b'
        \<and> total_comments (activity b') = 4 \<and> total_parent_comments (activity b') = 3)
   \<and> (\<exists>b'. findOne (\<lambda>b. blog__id b = 1)
          (Blog (snd (add_comment 13 4 thread_db 203 1 ''hello'' 100 (Some 10)))) = Some b'
        \<and> total_comments (activity b') = 4 \<and> total_parent_comments (activity b') = 2)"
proof -
  have h1: "''hello'' \<noteq> []" by simp
  have h2: "findOne (\<lambda>b. blog__id b = 1) (Blog thread_db) = Some (hd (Blog thread_db))"
    by (simp add: thread_db_def findOne_def)
  have v: "total_comments (activity (hd (Blog thread_db))) = 3"
      "total_parent_comments (activity (hd (Blog thread_db))) = 2"
    by (simp_all add: thread_db_def)
  from add_comment_counters [OF h1 h2, of 13 4 203 100 None]
    add_comment_counters [OF h1 h2, of 13 4 203 100 "Some 10"] h2 v
  show ?thesis by simp
qed

text \<open>
  C9. An addComment with some text, and with a parent that is in the Comment collection
  when one is given, succeeds and persists exactly one Notification: of type comment,
  addressed to the blog author of the request, when there is no parent; of type reply,
  addressed to the \<open>commented_by\<close> of the parent comment and with \<open>replied_on_comment\<close> the
  parent's id, when there is one.
\<close>

theorem add_comment_notification:
  assumes "comment_text \<noteq> []"
    and "case replying_to of
           None \<Rightarrow> recipient = blog_author_id
         | Some p \<Rightarrow> \<exists>pc. findOne (\<lambda>c. comment__id c = p) (Comment s) = Some pc
                         \<and> recipient = commented_by pc"
  shows "(\<exists>bd. fst (add_comment new_id now s user_id b_id comment_text
                      blog_author_id replying_to) = Json 200 bd)
       \<and> Notification (snd (add_comment new_id now s user_id b_id comment_text
                              blog_author_id replying_to))
          = Notification s @
             [\<lparr>ntype = (case replying_to of None \<Rightarrow> CommentN | Some _ \<Rightarrow> Reply),
               blog = b_id, notification_for = recipient, user = user_id,
               ncomment = Some new_id, replied_on_comment = replying_to, reply = None\<rparr>]"
  using assms
  by (auto simp: add_comment_def Let_def findOne_def find_append_Some split: option.splits)

theorem add_comment_notification_witness:
  "''hello'' \<noteq> []
   \<and> findOne (\<lambda>c. comment__id c = 10) (Comment thread_db) = Some (hd (Comment thread_db))
   \<and> commented_by (hd (Comment thread_db)) = 200
   \<and> Notification (snd (add_comment 13 4 thread_db 203 1 ''hello'' 100 (Some 10)))
        = Notification thread_db @
           [\<lparr>ntype = Reply, blog = 1, notification_for = 200, user = 203,
             ncomment = Some 13, replied_on_comment = Some 10, reply = None\<rparr>]
   \<and> Notification (snd (add_comment 13 4 thread_db 203 1 ''hello'' 100 None))
        = Notification thread_db @
           [\<lparr>ntype = CommentN, blog = 1, notification_for = 100, user = 203,
             ncomment = Some 13, replied_on_comment = None, reply = None\<rparr>]"
proof -
  have h1: "''hello'' \<noteq> []" by simp
  have h2: "findOne (\<lambda>c. comment__id c = 10) (Comment thread_db) = Some (hd (Comment thread_db))"
      "commented_by (hd (Comment thread_db)) = 200"
    by (simp_all add: thread_db_def findOne_def)
  then have h3: "case Some 10 of
           None \<Rightarrow> 200 = (100::nat)
         | Some p \<Rightarrow> \<exists>pc. findOne (\<lambda>c. comment__id c = p) (Comment thread_db) = Some pc
                         \<and> 200 = commented_by pc"
    by simp
  have h4: "case None of
           None \<Rightarrow> 100 = (100::nat)
         | Some p \<Rightarrow> \<exists>pc. findOne (\<lambda>c. comment__id c = p) (Comment thread_db) = Some pc
                         \<and> 100 = commented_by pc"
    by simp
  from add_comment_notification [OF h1 h3, of 13 4 203 1]
    add_comment_notification [OF h1 h4, of 13 4 203 1] h2
  show ?thesis by simp
qed

section \<open>Deleting a comment\<close>

text \<open>
  C6. A delete request for a comment of the collection by a user who is neither its
  \<open>commented_by\<close> nor its \<open>blog_author\<close> is refused (403, "Cannot delete this comment") and
  leaves the Comment collection, the Notification collection and the Blog counters as
  they were.
\<close>

theorem delete_comment_forbidden:
  assumes "findOne (\<lambda>d. comment__id d = c_id) (Comment s) = Some c"
    and "user_id \<noteq> commented_by c" and "user_id \<noteq> blog_author c"
  shows "delete_comment s user_id c_id = (Json 403 (Error ''Cannot delete this comment''), s)"
  using assms by (simp add: delete_comment_def)

theorem delete_comment_forbidden_witness:
  "findOne (\<lambda>d. comment__id d = 10) (Comment thread_db) = Some (hd (Comment thread_db))
   \<and> (201::nat) \<noteq> commented_by (hd (Comment thread_db))
   \<and> (201::nat) \<noteq> blog_author (hd (Comment thread_db))
   \<and> delete_comment thread_db 201 10
        = (Json 403 (Error ''Cannot delete this comment''), thread_db)"
proof -
  have h1: "findOne (\<lambda>d. comment__id d = 10) (Comment thread_db) = Some (hd (Comment thread_db))"
    by (simp add: thread_db_def findOne_def)
  have h2: "(201::nat) \<noteq> commented_by (hd (Comment thread_db))"
    by (simp add: thread_db_def)
  have h3: "(201::nat) \<noteq> blog_author (hd (Comment thread_db))"
    by (simp add: thread_db_def)
  from delete_comment_forbidden [OF h1 h2 h3] h1 h2 h3 show ?thesis by simp
qed

text \<open>
  Once a delete request has been carried out, a further request for the same id, or for
  the id of any comment that the cascade deleted, finds no comment: the database stays
  exactly as it was, and \<open>deleteComments\<close> called again on that id does nothing. The
  handler, though, runs into the missing document and sends no response.
\<close>

lemma delete_comment_twice:
  assumes "distinct (comment_ids s)"
    and "delete_comment s user_id c_id = (Json 200 (Status ''done''), s1)"
    and "j = c_id \<or> deleted s s1 j"
  shows "delete_comment s1 user_id' j = (Unhandled, s1) \<and> deleteComments s1 j = s1"
proof -
  from assms(2) have s1: "s1 = deleteComments s c_id"
    by (auto simp: delete_comment_def split: option.splits if_splits)
  have "c_id \<notin> set (comment_ids s1)"
    unfolding s1 using assms(1) by (rule deleted_stays_deleted)
  with assms(3) have "j \<notin> set (comment_ids s1)"
    by (auto simp: deleted_def)
  then have "findOne (\<lambda>d. comment__id d = j) (Comment s1) = None"
    by (simp add: findOne_def find_None_ids comment_ids_def)
  then show ?thesis by (simp add: delete_comment_def deleteComments.simps)
qed

text \<open>
  C5. A second delete request for an id that is already deleted neither returns as a no-op
  nor fails with a not-found error. In \<open>built_db\<close> the request of user 200 to delete
  comment 10 is answered 200 "done" and leaves comment 12 only. The same request sent
  again finds \<open>null\<close>, the callback fails on \<open>comment.commented_by\<close> with no test for
  \<open>null\<close> and no \<open>catch\<close>, and no response is sent. The database is as the first
  request left it: \<open>total_comments\<close> and \<open>total_parent_comments\<close> are not written again.
\<close>

theorem delete_comment_second_request:
  "fst (delete_comment built_db 200 10) = Json 200 (Status ''done'')
   \<and> comment_ids (snd (delete_comment built_db 200 10)) = [12]
   \<and> delete_comment (snd (delete_comment built_db 200 10)) 200 10
        = (Unhandled, snd (delete_comment built_db 200 10))"
  by (simp add: built_db_def blank_db_def add_comment_def delete_comment_def db_eval)



text \<open>
  C4. Take a database in which comment ids are distinct and no two notifications share a
  \<open>comment\<close> reference or a \<open>reply\<close> reference. After a cascade the Notification
  collection is exactly the one of before with the notifications whose \<open>comment\<close> field is
  the id of a deleted comment taken out, and with \<open>reply\<close> unset in the notifications
  whose \<open>reply\<close> is the id of a deleted comment: those records are kept, in place, with
  every other field as it was, and every other notification is untouched. So for every
  deleted comment no notification with that \<open>comment\<close> field is left, and none with that
  \<open>reply\<close> reference. The comment the cascade starts from is deleted when it is in the
  collection. (A notification that refers to one deleted comment through \<open>reply\<close> and to
  another through \<open>comment\<close> goes with the latter.)
\<close>

theorem cascade_notifications:
  assumes "distinct (comment_ids s)" and "unique_refs s"
  shows "Notification (deleteComments s c_id) = expected_notifications s (deleteComments s c_id)
       \<and> (\<forall>j. deleted s (deleteComments s c_id) j \<longrightarrow>
              comment_notifications (deleteComments s c_id) j = []
            \<and> reply_notifications (deleteComments s c_id) j = [])
       \<and> (c_id \<in> set (comment_ids s) \<longrightarrow> deleted s (deleteComments s c_id) c_id)"
proof -
  from assms(2) have "single_refs s" by (rule unique_single)
  with exact_cascade [of s c_id] assms(1)
  have e: "Notification (deleteComments s c_id) = expected_notifications s (deleteComments s c_id)"
    by (simp add: exact_def)
  moreover from e have "\<forall>j. deleted s (deleteComments s c_id) j \<longrightarrow>
              comment_notifications (deleteComments s c_id) j = []
            \<and> reply_notifications (deleteComments s c_id) j = []"
    using expected_no_refs by blast
  moreover have "c_id \<in> set (comment_ids s) \<longrightarrow> deleted s (deleteComments s c_id) c_id"
    using deleted_stays_deleted [OF assms(1), of c_id] by (simp add: deleted_def)
  ultimately show ?thesis by simp
qed

theorem cascade_notifications_witness:
  "distinct (comment_ids thread_db) \<and> unique_refs thread_db
   \<and> deleted thread_db (deleteComments thread_db 11) 11
   \<and> Notification (deleteComments thread_db 11)
        = expected_notifications thread_db (deleteComments thread_db 11)
   \<and> expected_notifications thread_db (deleteComments thread_db 11)
        = [\<lparr>ntype = CommentN, blog = 1, notification_for = 100, user = 200,
             ncomment = Some 10, replied_on_comment = None, reply = None\<rparr>,
           \<lparr>ntype = CommentN, blog = 1, notification_for = 100, user = 202,
             ncomment = Some 12, replied_on_comment = None, reply = None\<rparr>]
   \<and> comment_notifications (deleteComments thread_db 11) 11 = []
   \<and> reply_notifications (deleteComments thread_db 11) 11 = []
   \<and> distinct (comment_ids built_db) \<and> unique_refs built_db
   \<and> deleted built_db (deleteComments built_db 10) 10
   \<and> deleted built_db (deleteComments built_db 10) 11
   \<and> Notification (deleteComments built_db 10)
        = expected_notifications built_db (deleteComments built_db 10)
   \<and> expected_notifications built_db (deleteComments built_db 10)
        = [\<lparr>ntype = CommentN, blog = 1, notification_for = 100, user = 202,
             ncomment = Some 12, replied_on_comment = None, reply = None\<rparr>]"
proof -
  have h1: "distinct (comment_ids thread_db)" by (simp add: thread_db_def comment_ids_def)
  have h2: "unique_refs thread_db"
    by (simp add: thread_db_def unique_refs_def List.map_filter_simps)
  have h3: "deleted thread_db (deleteComments thread_db 11) 11"
    by (simp add: thread_db_def deleted_def db_eval)
  have v1: "expected_notifications thread_db (deleteComments thread_db 11)
        = [\<lparr>ntype = CommentN, blog = 1, notification_for = 100, user = 200,
             ncomment = Some 10, replied_on_comment = None, reply = None\<rparr>,
           \<lparr>ntype = CommentN, blog = 1, notification_for = 100, user = 202,
             ncomment = Some 12, replied_on_comment = None, reply = None\<rparr>]"
    by (simp add: thread_db_def expected_notifications_def refers_deleted_def deleted_def db_eval)
  have b: "built_db =
    \<lparr>Blog = [\<lparr>blog__id = 1, author = 100, comments = [10, 11, 12],
              activity = \<lparr>total_likes = 0, total_comments = 3, total_reads = 0,
                          total_parent_comments = 2\<rparr>\<rparr>],
     Comment =
       [\<lparr>comment__id = 10, blog_id = 1, blog_author = 100, comment = ''first'',
          commented_by = 200, parent = None, isReply = False, children = [11],
          commentedAt = 1\<rparr>,
        \<lparr>comment__id = 11, blog_id = 1, blog_author = 100, comment = ''answer'',
          commented_by = 201, parent = Some 10, isReply = True, children = [],
          commentedAt = 2\<rparr>,
        \<lparr>comment__id = 12, blog_id = 1, blog_author = 100, comment = ''second'',
          commented_by = 202, parent = None, isReply = False, children = [],
          commentedAt = 3\<rparr>],
     Notification =
       [\<lparr>ntype = CommentN, blog = 1, notification_for = 100, user = 200,
          ncomment = Some 10, replied_on_comment = None, reply = None\<rparr>,
        \<lparr>ntype = Reply, blog = 1, notification_for = 200, user = 201,
          ncomment = Some 11, replied_on_comment = Some 10, reply = None\<rparr>,
        \<lparr>ntype = CommentN, blog = 1, notification_for = 100, user = 202,
          ncomment = Some 12, replied_on_comment = None, reply = None\<rparr>]\<rparr>"
    by (simp add: built_db_def blank_db_def add_comment_def db_eval)
  have g1: "distinct (comment_ids built_db)" by (simp add: b comment_ids_def)
  have g2: "unique_refs built_db"
    by (simp add: b unique_refs_def List.map_filter_simps)
  have g3: "deleted built_db (deleteComments built_db 10) 10"
      "deleted built_db (deleteComments built_db 10) 11"
    by (simp_all add: b deleted_def db_eval)
  have v2: "expected_notifications built_db (deleteComments built_db 10)
        = [\<lparr>ntype = CommentN, blog = 1, notification_for = 100, user = 202,
             ncomment = Some 12, replied_on_comment = None, reply = None\<rparr>]"
    by (simp add: b expected_notifications_def refers_deleted_def deleted_def db_eval)
  from cascade_notifications [OF h1 h2, of 11] cascade_notifications [OF g1 g2, of 10]
    h1 h2 h3 g1 g2 g3 v1 v2
  show ?thesis by simp
qed

text \<open>
  The hypothesis \<open>unique_refs\<close> is needed: \<open>findOneAndUpdate\<close> rewrites one document.
  \<open>reply_db\<close> has two notifications that refer to comment 10 through \<open>reply\<close>, and after
  the deletion of comment 10 the second one still does. No sequence of the three handlers
  leads to such a database, since none of them writes \<open>reply\<close>.
\<close>

lemma first_reply_only:
  "\<not> unique_refs reply_db
   \<and> map reply (Notification (deleteComments reply_db 10)) = [None, Some 10]"
  by (simp add: reply_db_def unique_refs_def List.map_filter_simps db_eval)

section \<open>The counters after a cascade\<close>

text \<open>
  C1. Each deletion takes 1 from \<open>total_comments\<close>, but \<open>total_parent_comments\<close> is
  assigned, not decremented (\<open>removeRefs_counters\<close> below, for any database). In \<open>thread_db\<close> the blog has 3 comments, 2 of them top-level.
  Deleting the top-level comment 12, which has no replies, leaves \<open>total_comments\<close> at 2 and
  \<open>total_parent_comments\<close> at -1 (the claim: 1). Deleting the reply 11 leaves
  \<open>total_comments\<close> at 2 and \<open>total_parent_comments\<close> at 0 (the claim: unchanged, 2).
\<close>

lemma removeRefs_counters:
  assumes "findOne (\<lambda>b. blog__id b = blog_id c) (Blog s) = Some b"
  shows "\<exists>b'. findOne (\<lambda>b. blog__id b = blog_id c) (Blog (removeRefs c_id c s)) = Some b'
          \<and> total_comments (activity b') = total_comments (activity b) - 1
          \<and> total_parent_comments (activity b') = (if parent c = None then - 1 else 0)"
  using assms
  by (auto simp: removeRefs_def Let_def findOne_def find_updateFirst_same split: option.splits)

theorem deleteComments_parent_counter:
  "map activity (Blog thread_db)
      = [\<lparr>total_likes = 0, total_comments = 3, total_reads = 0, total_parent_comments = 2\<rparr>]
   \<and> map activity (Blog (deleteComments thread_db 12))
      = [\<lparr>total_likes = 0, total_comments = 2, total_reads = 0, total_parent_comments = - 1\<rparr>]
   \<and> map activity (Blog (deleteComments thread_db 11))
      = [\<lparr>total_likes = 0, total_comments = 2, total_reads = 0, total_parent_comments = 0\<rparr>]"
  by (simp add: thread_db_def db_eval)

text \<open>
  C2. Deleting comment 10 of \<open>thread_db\<close>, a top-level comment with one reply, removes both
  comments and takes 2 from \<open>total_comments\<close>, but leaves \<open>total_parent_comments\<close> at 0
  where the claim has 2 - 1 = 1: the deletion of 10 assigns -1 and the deletion of its
  reply then assigns 0.
\<close>

theorem deleteComments_subtree_counters:
  "comment_ids thread_db = [10, 11, 12]
   \<and> comment_ids (deleteComments thread_db 10) = [12]
   \<and> map activity (Blog (deleteComments thread_db 10))
      = [\<lparr>total_likes = 0, total_comments = 1, total_reads = 0, total_parent_comments = 0\<rparr>]"
  by (simp add: thread_db_def db_eval)

section \<open>Toggling a like\<close>

text \<open>
  C3. The handler adds 1 to \<open>total_likes\<close> when \<open>isLikedByUser\<close> is false and takes 1 when
  it is true, but creates the notification when \<open>isLikedByUser\<close> is true and deletes one
  when it is false. In \<open>thread_db\<close> user 300 has not liked blog 1: the toggle from not-liked
  takes \<open>total_likes\<close> from 0 to 1, creates no notification and answers
  \<open>liked_by_user: false\<close>; a toggle sent with \<open>isLikedByUser\<close> true takes \<open>total_likes\<close>
  to -1, appends a like notification and answers \<open>liked_by_user: true\<close>.
\<close>

theorem like_blog_inverted:
  "fst (like_blog thread_db 300 1 False) = Json 200 (Liked_by_user False)
   \<and> map (\<lambda>b. total_likes (activity b)) (Blog (snd (like_blog thread_db 300 1 False))) = [1]
   \<and> Notification (snd (like_blog thread_db 300 1 False)) = Notification thread_db
   \<and> fst (like_blog thread_db 300 1 True) = Json 200 (Liked_by_user True)
   \<and> map (\<lambda>b. total_likes (activity b)) (Blog (snd (like_blog thread_db 300 1 True))) = [- 1]
   \<and> Notification (snd (like_blog thread_db 300 1 True)) = Notification thread_db @
        [\<lparr>ntype = Like, blog = 1, notification_for = 100, user = 300,
          ncomment = None, replied_on_comment = None, reply = None\<rparr>]"
  by (simp add: thread_db_def like_blog_def db_eval)

end
